theory Spec2Isabelle
  imports Main "HOL-Library.AList"
begin

section \<open>The code agent of src/inngest/functions.ts\<close>

text \<open>
  A shallow embedding of \<^verbatim>\<open>codeAgentFunction\<close>: the three tool handlers, the
  \<^verbatim>\<open>onResponse\<close> lifecycle hook, the router, the error classification and the
  \<^verbatim>\<open>save-result\<close> step.

  Conventions.
  \<^item> A JavaScript string is a \<open>string\<close>; only emptiness, concatenation and substring
    search are used, and these do not depend on the character width.
  \<^item> A thrown exception is represented by its string conversion (what \<^verbatim>\<open>`${e}`\<close> and
    \<^verbatim>\<open>"Error: " + e\<close> read of it); a computation that may throw returns \<open>exn + 'a\<close>,
    \<open>Inl e\<close> for a throw.
  \<^item> A plain object with string properties is an association list of its own
    properties; the order of the keys is not observed by anything modelled here.
    \<^verbatim>\<open>o[k] = v\<close> is \<open>js_assign k v\<close>, which treats the key \<^verbatim>\<open>__proto__\<close> as
    JavaScript does. Objects live in a store and are held by reference, so that two
    names of one object see each other's writes.
  \<^item> \<^verbatim>\<open>step.run(name, fn)\<close> runs \<open>fn\<close> once, in place, and hands back the value it
    returns as it is; replay of a memoized result by the step substrate is not modelled.
    \<^verbatim>\<open>step?.run\<close> with no step tools yields \<^verbatim>\<open>undefined\<close> without running \<open>fn\<close>.
  \<^item> The sandbox, the language model and the database are outside the program: what the
    sandbox answers to each call of one handler invocation is a parameter of that
    invocation.
\<close>

subsection \<open>Values, objects and the store\<close>

type_synonym exn = string

type_synonym ref = nat

type_synonym obj = "(string \<times> string) list"

datatype js_value = Undefined | Str string | Obj ref

fun typeof :: "js_value \<Rightarrow> string" where
  "typeof Undefined = ''undefined''"
| "typeof (Str s) = ''string''"
| "typeof (Obj r) = ''object''"

text \<open>\<^verbatim>\<open>interface AgentState { summary: string; files: { [path: string]: string } }\<close>.
  The network starts with neither property, so both are optional.\<close>

record AgentState =
  summary :: "string option"
  files :: "ref option"

text \<open>\<^verbatim>\<open>network.state.data\<close> together with the object store its reference points into;
  \<open>fresh\<close> is the next unused address.\<close>

record network =
  data :: AgentState
  heap :: "ref \<Rightarrow> obj"
  fresh :: ref

text \<open>The object literal \<^verbatim>\<open>{}\<close>: a new empty object at a new address.\<close>

definition new_object :: "network \<Rightarrow> ref \<times> network" where
  "new_object n = (fresh n, n\<lparr>heap := (heap n)(fresh n := []), fresh := Suc (fresh n)\<rparr>)"

text \<open>The object that \<^verbatim>\<open>network.state.data.files || {}\<close> denotes when it is only read.\<close>

definition files_or_empty :: "network \<Rightarrow> obj" where
  "files_or_empty n = (case files (data n) of None \<Rightarrow> [] | Some r \<Rightarrow> heap n r)"

definition Object_keys :: "obj \<Rightarrow> string list" where
  "Object_keys ob = map fst ob"

text \<open>\<^verbatim>\<open>o[k] = v\<close> for a string \<open>v\<close> on a plain object. An own property \<open>k\<close> is
  overwritten, and a key the object does not have is added. The one exception is the key
  \<^verbatim>\<open>__proto__\<close> on an object with no own property of that name: the assignment then
  calls the setter inherited from \<^verbatim>\<open>Object.prototype\<close>, which ignores a string, and
  the object gets no property.\<close>

definition js_assign :: "string \<Rightarrow> string \<Rightarrow> obj \<Rightarrow> obj" where
  "js_assign k v ob =
     (if k = ''__proto__'' \<and> map_of ob k = None then ob else AList.update k v ob)"

subsection \<open>Strings: truthiness and \<^verbatim>\<open>includes\<close>\<close>

text \<open>A possibly undefined string is truthy when it is defined and not empty.\<close>

fun truthy :: "string option \<Rightarrow> bool" where
  "truthy None = False"
| "truthy (Some s) = (s \<noteq> [])"

fun starts_with :: "string \<Rightarrow> string \<Rightarrow> bool" where
  "starts_with s [] = True"
| "starts_with [] (p # ps) = False"
| "starts_with (c # cs) (p # ps) = (c = p \<and> starts_with cs ps)"

text \<open>\<^verbatim>\<open>s.includes(p)\<close>: \<open>p\<close> occurs in \<open>s\<close> at some position.\<close>

fun str_includes :: "string \<Rightarrow> string \<Rightarrow> bool" where
  "str_includes [] p = (p = [])"
| "str_includes (c # cs) p = (starts_with (c # cs) p \<or> str_includes cs p)"

definition sentinel :: string where
  "sentinel = ''<task_summary>''"

subsection \<open>The turn result and the lifecycle hook\<close>

datatype message_role = System | User | Assistant

text \<open>A message of the transcript: plain text, a request for tool calls (the names of
  the tools), or the result a tool gave.\<close>

datatype message =
  TextMessage message_role string
| ToolCallMessage message_role "string list"
| ToolResultMessage string

record AgentResult =
  agentName :: string
  result_output :: "message list"

text \<open>Modelled from the spec: \<^verbatim>\<open>lastAssistantTextMessageContent\<close> of
  \<^verbatim>\<open>src/inngest/utils.ts\<close>, which is not among the sources. Section 4.3: it
  "extracts the last plain-text (non-tool-call) message emitted by the assistant role in
  this turn's transcript"; there is none when the turn holds no such message.\<close>

fun last_assistant_text :: "message list \<Rightarrow> string option" where
  "last_assistant_text [] = None"
| "last_assistant_text (m # ms) =
     (case last_assistant_text ms of
        Some t \<Rightarrow> Some t
      | None \<Rightarrow> (case m of TextMessage Assistant t \<Rightarrow> Some t | _ \<Rightarrow> None))"

fun is_assistant_text :: "message \<Rightarrow> bool" where
  "is_assistant_text (TextMessage Assistant t) = True"
| "is_assistant_text m = False"

definition lastAssistantTextMessageContent :: "AgentResult \<Rightarrow> string option" where
  "lastAssistantTextMessageContent result = last_assistant_text (result_output result)"

text \<open>\<^verbatim>\<open>onResponse: async ({ result, network }) => ...\<close>; \<open>network\<close> may be undefined.\<close>

definition onResponse :: "AgentResult \<Rightarrow> network option \<Rightarrow> AgentResult \<times> network option" where
  "onResponse result nw =
     (let lastAssistantMessageText = lastAssistantTextMessageContent result in
      (result,
       case nw of
         None \<Rightarrow> None
       | Some n \<Rightarrow>
           Some (case lastAssistantMessageText of
                   None \<Rightarrow> n
                 | Some t \<Rightarrow>
                     if truthy (Some t) then
                       if str_includes t sentinel
                       then n\<lparr>data := (data n)\<lparr>summary := Some t\<rparr>\<rparr>
                       else n
                     else n)))"

subsection \<open>The router\<close>

datatype agent = codeAgent

text \<open>The router returns the next agent, or \<^verbatim>\<open>undefined\<close> (here \<open>None\<close>) to halt.\<close>

definition router :: "network \<Rightarrow> agent option" where
  "router n = (let s = summary (data n) in if truthy s then None else Some codeAgent)"

subsection \<open>The sandbox, exceptions and durable steps\<close>

datatype chunk = OnStdout string | OnStderr string

text \<open>What the sandbox answers during one handler invocation:
  \<^item> \<open>getSandbox\<close>: the exception \<^verbatim>\<open>getSandbox(sandboxId)\<close> throws, if it throws;
  \<^item> \<open>commands_run\<close>: the chunks \<^verbatim>\<open>sandbox.commands.run\<close> delivers to the two
    callbacks, and then the exception it throws or the \<^verbatim>\<open>stdout\<close> of its result;
  \<^item> \<open>files_write\<close>: the exception the \<open>k\<close>-th \<^verbatim>\<open>sandbox.files.write\<close> throws, if any;
  \<^item> \<open>files_read\<close>: the exception the \<open>k\<close>-th \<^verbatim>\<open>sandbox.files.read\<close> throws, or the
    content it returns.\<close>

record sandbox =
  getSandbox :: "exn option"
  commands_run :: "string \<Rightarrow> chunk list \<times> (exn + string)"
  files_write :: "nat \<Rightarrow> string \<Rightarrow> string \<Rightarrow> exn option"
  files_read :: "nat \<Rightarrow> string \<Rightarrow> exn + string"

text \<open>\<^verbatim>\<open>try { body } catch (e) { handler }\<close> over a state the body may have changed
  before it threw.\<close>

definition try_catch ::
  "('s \<Rightarrow> (exn + 'a) \<times> 's) \<Rightarrow> (exn \<Rightarrow> 's \<Rightarrow> (exn + 'a) \<times> 's) \<Rightarrow> 's \<Rightarrow> (exn + 'a) \<times> 's" where
  "try_catch body handler s =
     (case body s of
        (Inl e, s') \<Rightarrow> handler e s'
      | (Inr v, s') \<Rightarrow> (Inr v, s'))"

text \<open>\<^verbatim>\<open>await step?.run(name, fn)\<close>; \<open>step\<close> tells whether the step tools are there.\<close>

definition step_run ::
  "bool \<Rightarrow> ('s \<Rightarrow> (exn + js_value) \<times> 's) \<Rightarrow> 's \<Rightarrow> (exn + js_value) \<times> 's" where
  "step_run step fn s = (if step then fn s else (Inr Undefined, s))"

subsection \<open>The terminal tool\<close>

record buffers =
  stdout :: string
  stderr :: string

fun deliver :: "chunk \<Rightarrow> buffers \<Rightarrow> buffers" where
  "deliver (OnStdout d) b = b\<lparr>stdout := stdout b @ d\<rparr>"
| "deliver (OnStderr d) b = b\<lparr>stderr := stderr b @ d\<rparr>"

text \<open>The text the two callbacks have received from a sequence of chunks.\<close>

fun stdout_text :: "chunk list \<Rightarrow> string" where
  "stdout_text [] = []"
| "stdout_text (OnStdout d # cs) = d @ stdout_text cs"
| "stdout_text (OnStderr d # cs) = stdout_text cs"

fun stderr_text :: "chunk list \<Rightarrow> string" where
  "stderr_text [] = []"
| "stderr_text (OnStdout d # cs) = stderr_text cs"
| "stderr_text (OnStderr d # cs) = d @ stderr_text cs"

definition terminal_try :: "sandbox \<Rightarrow> string \<Rightarrow> buffers \<Rightarrow> (exn + js_value) \<times> buffers" where
  "terminal_try sb command b =
     (case getSandbox sb of
        Some e \<Rightarrow> (Inl e, b)
      | None \<Rightarrow>
          (let (chunks, result) = commands_run sb command;
               b' = fold deliver chunks b
           in case result of
                Inl e \<Rightarrow> (Inl e, b')
              | Inr result_stdout \<Rightarrow> (Inr (Str result_stdout), b')))"

text \<open>The catch block also writes the same string to the console, which is not modelled.\<close>

definition terminal_catch :: "exn \<Rightarrow> buffers \<Rightarrow> (exn + js_value) \<times> buffers" where
  "terminal_catch e b =
     (Inr (Str (''Command failed: '' @ e @ '' '' @ [CHR 0x0A] @ ''stdout: '' @ stdout b
                @ [CHR 0x0A] @ ''stderror: '' @ stderr b)), b)"

definition terminal_fn :: "sandbox \<Rightarrow> string \<Rightarrow> network \<Rightarrow> (exn + js_value) \<times> network" where
  "terminal_fn sb command n =
     (let buffers = \<lparr>stdout = [], stderr = []\<rparr>
      in (fst (try_catch (terminal_try sb command) terminal_catch buffers), n))"

definition terminal :: "bool \<Rightarrow> sandbox \<Rightarrow> string \<Rightarrow> network \<Rightarrow> (exn + js_value) \<times> network" where
  "terminal step sb command n = step_run step (terminal_fn sb command) n"

subsection \<open>The createOrUpdateFiles tool\<close>

text \<open>The loop over the batch; \<open>updatedFiles\<close> is the reference the loop writes through,
  \<open>k\<close> counts the calls of \<^verbatim>\<open>sandbox.files.write\<close>.\<close>

fun write_files ::
  "sandbox \<Rightarrow> nat \<Rightarrow> (string \<times> string) list \<Rightarrow> ref \<Rightarrow> network \<Rightarrow> (exn + unit) \<times> network" where
  "write_files sb k [] updatedFiles n = (Inr (), n)"
| "write_files sb k ((path, content) # fs) updatedFiles n =
     (case files_write sb k path content of
        Some e \<Rightarrow> (Inl e, n)
      | None \<Rightarrow>
          write_files sb (Suc k) fs updatedFiles
            (n\<lparr>heap := (heap n)(updatedFiles := js_assign path content (heap n updatedFiles))\<rparr>))"

definition createOrUpdateFiles_try ::
  "sandbox \<Rightarrow> (string \<times> string) list \<Rightarrow> network \<Rightarrow> (exn + js_value) \<times> network" where
  "createOrUpdateFiles_try sb fs n =
     (let (updatedFiles, n1) = (case files (data n) of Some r \<Rightarrow> (r, n) | None \<Rightarrow> new_object n)
      in case getSandbox sb of
           Some e \<Rightarrow> (Inl e, n1)
         | None \<Rightarrow>
             (case write_files sb 0 fs updatedFiles n1 of
                (Inl e, n2) \<Rightarrow> (Inl e, n2)
              | (Inr u, n2) \<Rightarrow> (Inr (Obj updatedFiles), n2)))"

definition createOrUpdateFiles_catch :: "exn \<Rightarrow> network \<Rightarrow> (exn + js_value) \<times> network" where
  "createOrUpdateFiles_catch e n = (Inr (Str (''Error: '' @ e)), n)"

definition createOrUpdateFiles_fn ::
  "sandbox \<Rightarrow> (string \<times> string) list \<Rightarrow> network \<Rightarrow> (exn + js_value) \<times> network" where
  "createOrUpdateFiles_fn sb fs = try_catch (createOrUpdateFiles_try sb fs) createOrUpdateFiles_catch"

text \<open>The handler has no \<^verbatim>\<open>return\<close>: its value is \<^verbatim>\<open>undefined\<close>.\<close>

definition createOrUpdateFiles ::
  "bool \<Rightarrow> sandbox \<Rightarrow> (string \<times> string) list \<Rightarrow> network \<Rightarrow> (exn + js_value) \<times> network" where
  "createOrUpdateFiles step sb fs n =
     (case step_run step (createOrUpdateFiles_fn sb fs) n of
        (Inl e, n1) \<Rightarrow> (Inl e, n1)
      | (Inr newFiles, n1) \<Rightarrow>
          (Inr Undefined,
           if typeof newFiles = ''object''
           then (case newFiles of
                   Obj r \<Rightarrow> n1\<lparr>data := (data n1)\<lparr>files := Some r\<rparr>\<rparr>
                 | _ \<Rightarrow> n1)
           else n1))"

subsection \<open>The readFiles tool\<close>

text \<open>\<^verbatim>\<open>JSON.stringify\<close> of an array of \<^verbatim>\<open>{ path, content }\<close> objects: a string is
  quoted, with the quote, the backslash and the control characters escaped.\<close>

definition hex_digit :: "nat \<Rightarrow> char" where
  "hex_digit d = (if d < 10 then char_of (48 + d) else char_of (87 + d))"

definition json_char :: "char \<Rightarrow> string" where
  "json_char c =
     (if c = CHR 0x08 then [CHR 0x5C, CHR ''b'']
      else if c = CHR 0x09 then [CHR 0x5C, CHR ''t'']
      else if c = CHR 0x0A then [CHR 0x5C, CHR ''n'']
      else if c = CHR 0x0C then [CHR 0x5C, CHR ''f'']
      else if c = CHR 0x0D then [CHR 0x5C, CHR ''r'']
      else if c = CHR 0x22 then [CHR 0x5C, CHR 0x22]
      else if c = CHR 0x5C then [CHR 0x5C, CHR 0x5C]
      else if (of_char c :: nat) < 32
        then [CHR 0x5C, CHR ''u'', CHR ''0'', CHR ''0'',
              hex_digit (of_char c div 16), hex_digit (of_char c mod 16)]
      else [c])"

definition json_string :: "string \<Rightarrow> string" where
  "json_string s = [CHR 0x22] @ concat (map json_char s) @ [CHR 0x22]"

definition json_entry :: "string \<times> string \<Rightarrow> string" where
  "json_entry e =
     ''{'' @ json_string ''path'' @ '':'' @ json_string (fst e) @ '','' @
     json_string ''content'' @ '':'' @ json_string (snd e) @ ''}''"

fun join_comma :: "string list \<Rightarrow> string" where
  "join_comma [] = []"
| "join_comma [x] = x"
| "join_comma (x # y # ys) = x @ '','' @ join_comma (y # ys)"

definition JSON_stringify :: "(string \<times> string) list \<Rightarrow> string" where
  "JSON_stringify contents = ''['' @ join_comma (map json_entry contents) @ '']''"

text \<open>The loop over the paths; \<open>k\<close> counts the calls of \<^verbatim>\<open>sandbox.files.read\<close>.\<close>

fun read_files ::
  "sandbox \<Rightarrow> nat \<Rightarrow> string list \<Rightarrow> (string \<times> string) list \<Rightarrow> exn + (string \<times> string) list" where
  "read_files sb k [] contents = Inr contents"
| "read_files sb k (file # fs) contents =
     (case files_read sb k file of
        Inl e \<Rightarrow> Inl e
      | Inr content \<Rightarrow> read_files sb (Suc k) fs (contents @ [(file, content)]))"

definition readFiles_try :: "sandbox \<Rightarrow> string list \<Rightarrow> network \<Rightarrow> (exn + js_value) \<times> network" where
  "readFiles_try sb fs n =
     (case getSandbox sb of
        Some e \<Rightarrow> (Inl e, n)
      | None \<Rightarrow>
          (case read_files sb 0 fs [] of
             Inl e \<Rightarrow> (Inl e, n)
           | Inr contents \<Rightarrow> (Inr (Str (JSON_stringify contents)), n)))"

definition readFiles_catch :: "exn \<Rightarrow> network \<Rightarrow> (exn + js_value) \<times> network" where
  "readFiles_catch e n = (Inr (Str (''Error: '' @ e)), n)"

definition readFiles :: "bool \<Rightarrow> sandbox \<Rightarrow> string list \<Rightarrow> network \<Rightarrow> (exn + js_value) \<times> network" where
  "readFiles step sb fs n = step_run step (try_catch (readFiles_try sb fs) readFiles_catch) n"

subsection \<open>Tool calls and the states a run can reach\<close>

datatype tool_call =
  Terminal string
| CreateOrUpdateFiles "(string \<times> string) list"
| ReadFiles "string list"

fun run_tool :: "bool \<Rightarrow> sandbox \<Rightarrow> tool_call \<Rightarrow> network \<Rightarrow> (exn + js_value) \<times> network" where
  "run_tool step sb (Terminal command) n = terminal step sb command n"
| "run_tool step sb (CreateOrUpdateFiles fs) n = createOrUpdateFiles step sb fs n"
| "run_tool step sb (ReadFiles fs) n = readFiles step sb fs n"

text \<open>A network starts with no summary and with no files, or an empty files object.\<close>

definition initial :: "network \<Rightarrow> bool" where
  "initial n = (summary (data n) = None \<and> files_or_empty n = [])"

text \<open>Shared State changes only in a tool handler or in the lifecycle hook, so the states
  of a run are those that tool calls and hook calls, in any order and with any
  arguments and sandbox answers, lead to.\<close>

inductive reachable :: "network \<Rightarrow> bool" where
  reach_initial: "initial n \<Longrightarrow> reachable n"
| reach_tool: "reachable n \<Longrightarrow> reachable (snd (run_tool step sb c n))"
| reach_hook: "reachable n \<Longrightarrow> onResponse result (Some n) = (result', Some n') \<Longrightarrow> reachable n'"

subsection \<open>The caller: error classification and the save-result step\<close>

definition isError :: "network \<Rightarrow> bool" where
  "isError n =
     (\<not> truthy (summary (data n)) \<or> length (Object_keys (files_or_empty n)) = 0)"

record fragment =
  sandboxUrl :: string
  title :: string
  fragment_files :: "obj option"

record message_data =
  projectId :: string
  content :: "string option"
  role :: string
  type :: string
  fragment :: "fragment option"

text \<open>\<^verbatim>\<open>prisma.message.create({ data })\<close> adds one record to the messages.\<close>

definition prisma_message_create :: "message_data \<Rightarrow> message_data list \<Rightarrow> message_data list" where
  "prisma_message_create d db = db @ [d]"

definition save_result :: "string \<Rightarrow> string \<Rightarrow> network \<Rightarrow> message_data list \<Rightarrow> message_data list" where
  "save_result event_projectId url n db =
     (if isError n then
        prisma_message_create
          \<lparr>projectId = event_projectId,
           content = Some ''Something went wrong. Please try again.'',
           role = ''ASSISTANT'',
           type = ''ERROR'',
           fragment = None\<rparr> db
      else
        prisma_message_create
          \<lparr>projectId = event_projectId,
           content = summary (data n),
           role = ''ASSISTANT'',
           type = ''RESULT'',
           fragment = Some \<lparr>sandboxUrl = url,
                            title = ''Fragment'',
                            fragment_files = map_option (heap n) (files (data n))\<rparr>\<rparr> db)"

subsection \<open>The orchestration loop\<close>

text \<open>Modelled from the spec: the loop behind \<^verbatim>\<open>createNetwork\<close> and \<^verbatim>\<open>network.run\<close>
  and the agent's turn, which belong to the agent library and are not among the sources.
  The sources give the roster, \<^verbatim>\<open>maxIter: 15\<close> and the router.

  Section 4.2: an agent turn executes the tool calls the model asks for, in sequence,
  feeding tool errors back as results, and then invokes the lifecycle hook with the
  result and Shared State. What the model asks for and answers in a turn is a parameter.

  Section 4.5: "while iteration counter < configured max iterations (15) and state is
  RUNNING: invoke Router; if it returns halt, transition to HALTED_BY_ROUTER (terminal);
  else invoke the returned Agent, increment iteration counter, remain RUNNING. If
  iteration counter reaches the max without a halt decision, transition to
  HALTED_BY_LIMIT (terminal)."\<close>

record turn =
  tool_calls :: "(sandbox \<times> tool_call) list"
  turn_result :: AgentResult

definition run_agent :: "bool \<Rightarrow> turn \<Rightarrow> network \<Rightarrow> network" where
  "run_agent step t n =
     (let n1 = fold (\<lambda>(sb, c) m. snd (run_tool step sb c m)) (tool_calls t) n
      in case snd (onResponse (turn_result t) (Some n1)) of
           Some n2 \<Rightarrow> n2
         | None \<Rightarrow> n1)"

datatype status = RUNNING | HALTED_BY_ROUTER | HALTED_BY_LIMIT

definition maxIter :: nat where
  "maxIter = 15"

text \<open>The loop from iteration counter \<open>i\<close>; it returns the terminal state, the number
  of agent invocations made and the final Shared State.\<close>

function network_loop :: "bool \<Rightarrow> (nat \<Rightarrow> turn) \<Rightarrow> nat \<Rightarrow> network \<Rightarrow> status \<times> nat \<times> network" where
  "network_loop step script i n =
     (if i < maxIter then
        (case router n of
           None \<Rightarrow> (HALTED_BY_ROUTER, i, n)
         | Some a \<Rightarrow> network_loop step script (Suc i) (run_agent step (script i) n))
      else (HALTED_BY_LIMIT, i, n))"
  by pat_completeness auto
termination
  by (relation "measure (\<lambda>(step, script, i, n). maxIter - i)") auto

definition network_run :: "bool \<Rightarrow> (nat \<Rightarrow> turn) \<Rightarrow> network \<Rightarrow> status \<times> nat \<times> network" where
  "network_run step script n = network_loop step script 0 n"

subsection \<open>The files map as the spec describes it\<close>

text \<open>Section 8: the files map after the writes "equals the left-fold of write-batches
  applied in call order (last write to a path wins)".\<close>

definition apply_batch :: "(string \<times> string) list \<Rightarrow> (string \<rightharpoonup> string) \<Rightarrow> (string \<rightharpoonup> string)" where
  "apply_batch fs m = fold (\<lambda>(p, c) m'. m'(p \<mapsto> c)) fs m"

definition spec_files :: "(string \<times> string) list list \<Rightarrow> (string \<rightharpoonup> string)" where
  "spec_files batches = fold apply_batch batches Map.empty"

text \<open>A batch, run with the step tools, succeeds when neither \<^verbatim>\<open>getSandbox\<close> nor any
  of its writes throws.\<close>

fun writes_ok :: "sandbox \<Rightarrow> nat \<Rightarrow> (string \<times> string) list \<Rightarrow> bool" where
  "writes_ok sb k [] = True"
| "writes_ok sb k ((p, c) # fs) = (files_write sb k p c = None \<and> writes_ok sb (Suc k) fs)"

definition batch_ok :: "sandbox \<times> (string \<times> string) list \<Rightarrow> bool" where
  "batch_ok c = (getSandbox (fst c) = None \<and> writes_ok (fst c) 0 (snd c))"

text \<open>A sequence of createOrUpdateFiles calls, in call order.\<close>

definition run_batches :: "(sandbox \<times> (string \<times> string) list) list \<Rightarrow> network \<Rightarrow> network" where
  "run_batches calls n = fold (\<lambda>(sb, fs) m. snd (createOrUpdateFiles True sb fs m)) calls n"

text \<open>The assignments of one batch, applied to an object in sequence order.\<close>

definition assign_all :: "(string \<times> string) list \<Rightarrow> obj \<Rightarrow> obj" where
  "assign_all fs ob = fold (\<lambda>(p, c). js_assign p c) fs ob"

text \<open>A batch none of whose paths is \<^verbatim>\<open>__proto__\<close>.\<close>

definition proto_free :: "(string \<times> string) list \<Rightarrow> bool" where
  "proto_free fs = (''__proto__'' \<notin> set (map fst fs))"

subsection \<open>The summary invariant\<close>

text \<open>A summary that is set holds the sentinel.\<close>

definition summary_ok :: "network \<Rightarrow> bool" where
  "summary_ok n = (case summary (data n) of None \<Rightarrow> True | Some t \<Rightarrow> str_includes t sentinel)"

subsection \<open>Example runs\<close>

text \<open>The network as \<^verbatim>\<open>createNetwork\<close> starts it, a sandbox in which every call succeeds,
  and the hello-world scenario of Section 8: one batch with \<^verbatim>\<open>index.html\<close>, then a
  final message that carries the sentinel.\<close>

definition network0 :: network where
  "network0 = \<lparr>data = \<lparr>summary = None, files = None\<rparr>, heap = (\<lambda>r. []), fresh = 0\<rparr>"

definition sandbox_ok :: sandbox where
  "sandbox_ok =
     \<lparr>getSandbox = None,
      commands_run = (\<lambda>command. ([OnStdout ''ok''], Inr ''ok'')),
      files_write = (\<lambda>k p c. None),
      files_read = (\<lambda>k p. Inr ''<h1>Hello</h1>'')\<rparr>"

definition hello_turn :: turn where
  "hello_turn =
     \<lparr>tool_calls = [(sandbox_ok, CreateOrUpdateFiles [(''index.html'', ''<h1>Hello</h1>'')])],
      turn_result =
        \<lparr>agentName = ''code-agent'',
         result_output =
           [ToolCallMessage Assistant [''createOrUpdateFiles''],
            ToolResultMessage ''undefined'',
            TextMessage Assistant ''<task_summary>Created hello-world page</task_summary>'']\<rparr>\<rparr>"

definition network_hello :: network where
  "network_hello = run_agent True hello_turn network0"

definition sandbox_down :: sandbox where
  "sandbox_down = sandbox_ok\<lparr>getSandbox := Some ''Error: sandbox not found''\<rparr>"

definition sandbox_exit :: sandbox where
  "sandbox_exit =
     sandbox_ok\<lparr>commands_run :=
       (\<lambda>command. ([OnStdout ''a'', OnStderr ''b'', OnStdout ''c''],
                    Inl ''CommandExitError: exit status 1''))\<rparr>"

text \<open>A turn that runs a command and ends without the sentinel.\<close>

definition idle_turn :: turn where
  "idle_turn =
     \<lparr>tool_calls = [(sandbox_ok, Terminal ''npm run lint'')],
      turn_result =
        \<lparr>agentName = ''code-agent'',
         result_output = [TextMessage Assistant ''Still working on it.'']\<rparr>\<rparr>"

text \<open>A sandbox whose second write of a batch throws, a network that already holds
  \<^verbatim>\<open>a.txt\<close>, and two batches that both write \<^verbatim>\<open>a.txt\<close>.\<close>

definition sandbox_full :: sandbox where
  "sandbox_full =
     sandbox_ok\<lparr>files_write := (\<lambda>k p c. if k = 1 then Some ''Error: disk full'' else None)\<rparr>"

definition network_a :: network where
  "network_a = snd (createOrUpdateFiles True sandbox_ok [(''a.txt'', ''1'')] network0)"

definition two_batches :: "(sandbox \<times> (string \<times> string) list) list" where
  "two_batches =
     [(sandbox_ok, [(''a.txt'', ''1''), (''b.txt'', ''2'')]),
      (sandbox_ok, [(''a.txt'', ''3'')])]"

section \<open>Properties\<close>

subsection \<open>Substring search\<close>

lemma starts_with_iff: "starts_with s p = (\<exists>v. s = p @ v)"
  by (induction s p rule: starts_with.induct) auto

text \<open>\<open>str_includes\<close> decides whether the pattern is a contiguous part of the string.\<close>

lemma str_includes_iff: "str_includes s p = (\<exists>u v. s = u @ p @ v)"
proof (induction s)
  case Nil
  then show ?case by auto
next
  case (Cons c cs)
  show ?case
  proof
    assume "str_includes (c # cs) p"
    then consider "starts_with (c # cs) p" | "str_includes cs p" by auto
    then show "\<exists>u v. c # cs = u @ p @ v"
    proof cases
      case 1
      then obtain v where "c # cs = p @ v" by (auto simp: starts_with_iff)
      then have "c # cs = [] @ p @ v" by simp
      then show ?thesis by blast
    next
      case 2
      then obtain u v where "cs = u @ p @ v" using Cons.IH by auto
      then have "c # cs = (c # u) @ p @ v" by simp
      then show ?thesis by blast
    qed
  next
    assume "\<exists>u v. c # cs = u @ p @ v"
    then obtain u v where eq: "c # cs = u @ p @ v" by blast
    show "str_includes (c # cs) p"
    proof (cases u)
      case Nil
      with eq have "starts_with (c # cs) p" by (auto simp: starts_with_iff)
      then show ?thesis by simp
    next
      case (Cons a u')
      with eq have "cs = u' @ p @ v" by simp
      then have "str_includes cs p" using Cons.IH by blast
      then show ?thesis by simp
    qed
  qed
qed

lemma sentinel_not_empty: "sentinel \<noteq> []"
  by (simp add: sentinel_def)

lemma includes_sentinel_not_empty: "str_includes t sentinel \<Longrightarrow> t \<noteq> []"
  by (cases t) (auto simp: sentinel_def)

subsection \<open>The helper modelled from the spec\<close>

text \<open>The helper finds a text exactly when the transcript holds an assistant text
  message, and the text it finds is that of the one no other follows.\<close>

lemma last_assistant_text_None_iff:
  "(last_assistant_text ms = None) = (\<forall>m \<in> set ms. \<not> is_assistant_text m)"
proof (induction ms)
  case Nil
  show ?case by simp
next
  case (Cons m ms)
  show ?case
  proof (cases "last_assistant_text ms")
    case None
    with Cons show ?thesis
      by (cases m rule: is_assistant_text.cases) auto
  next
    case (Some t)
    with Cons show ?thesis by auto
  qed
qed

lemma last_assistant_text_append:
  "\<forall>m \<in> set post. \<not> is_assistant_text m \<Longrightarrow>
   last_assistant_text (pre @ TextMessage Assistant t # post) = Some t"
  by (induction pre) (auto simp: last_assistant_text_None_iff [symmetric])

subsection \<open>The lifecycle hook and the router\<close>

text \<open>C1. For every turn result the hook returns the result as it got it. With a network,
  it stores a summary if and only if the helper finds a last assistant text message and
  that message contains the sentinel; the stored summary is then that whole message, and
  otherwise the network is as before. Without a network nothing is stored.\<close>

theorem onResponse_sets_summary_iff_sentinel:
  "fst (onResponse result nw) = result \<and>
   onResponse result None = (result, None) \<and>
   onResponse result (Some n) =
     (result,
      Some (if \<exists>t. lastAssistantTextMessageContent result = Some t \<and> (\<exists>u v. t = u @ sentinel @ v)
            then n\<lparr>data := (data n)\<lparr>summary := lastAssistantTextMessageContent result\<rparr>\<rparr>
            else n))"
  by (auto simp: onResponse_def Let_def str_includes_iff sentinel_not_empty
      split: option.splits dest: includes_sentinel_not_empty)

text \<open>A turn with no assistant text message, such as one that holds tool calls only,
  leaves the network as it is.\<close>

lemma onResponse_no_assistant_text:
  "\<forall>m \<in> set (result_output result). \<not> is_assistant_text m \<Longrightarrow>
   onResponse result (Some n) = (result, Some n)"
  by (simp add: onResponse_def lastAssistantTextMessageContent_def Let_def
      last_assistant_text_None_iff [symmetric])

text \<open>C4. The router halts (returns no agent) exactly when the summary is present and
  not empty, and returns \<open>codeAgent\<close> exactly when it is not.\<close>

theorem router_halts_iff_summary_present:
  "(router n = None) = (\<exists>t. summary (data n) = Some t \<and> t \<noteq> []) \<and>
   (router n = Some codeAgent) = (\<not> (\<exists>t. summary (data n) = Some t \<and> t \<noteq> []))"
  by (cases "summary (data n)") (auto simp: router_def)

subsection \<open>What the tools leave alone\<close>

lemma snd_terminal: "snd (terminal step sb command n) = n"
  by (simp add: terminal_def step_run_def terminal_fn_def Let_def)

lemma snd_readFiles: "snd (readFiles step sb fs n) = n"
  by (auto simp: readFiles_def step_run_def try_catch_def readFiles_try_def readFiles_catch_def
      split: option.splits sum.splits)

lemma data_write_files: "data (snd (write_files sb k fs r n)) = data n"
  by (induction sb k fs r n rule: write_files.induct) (auto split: option.splits)

lemma summary_createOrUpdateFiles_fn:
  "summary (data (snd (createOrUpdateFiles_fn sb fs n))) = summary (data n)"
proof -
  have w: "\<And>r m. summary (data (snd (write_files sb 0 fs r m))) = summary (data m)"
    by (simp add: data_write_files)
  show ?thesis
  proof (cases "files (data n)")
    case None
    then show ?thesis
      using w [of "fresh n" "snd (new_object n)"]
      by (auto simp: createOrUpdateFiles_fn_def try_catch_def createOrUpdateFiles_try_def
          createOrUpdateFiles_catch_def new_object_def split: option.splits sum.splits prod.splits)
  next
    case (Some r)
    then show ?thesis
      using w [of r n]
      by (auto simp: createOrUpdateFiles_fn_def try_catch_def createOrUpdateFiles_try_def
          createOrUpdateFiles_catch_def split: option.splits sum.splits prod.splits)
  qed
qed

lemma summary_createOrUpdateFiles:
  "summary (data (snd (createOrUpdateFiles step sb fs n))) = summary (data n)"
  using summary_createOrUpdateFiles_fn [of sb fs n]
  by (auto simp: createOrUpdateFiles_def step_run_def split: prod.splits sum.splits js_value.splits)

lemma summary_run_tool: "summary (data (snd (run_tool step sb c n))) = summary (data n)"
  by (cases c) (simp_all add: snd_terminal snd_readFiles summary_createOrUpdateFiles)

subsection \<open>Reachable states\<close>

lemma reachable_summary_ok: "reachable n \<Longrightarrow> summary_ok n"
proof (induction rule: reachable.induct)
  case (reach_initial n)
  then show ?case by (simp add: initial_def summary_ok_def)
next
  case (reach_tool n step sb c)
  then show ?case by (simp add: summary_ok_def summary_run_tool)
next
  case (reach_hook n result result' n')
  then show ?case
    by (auto simp: onResponse_def Let_def summary_ok_def split: option.splits if_splits)
qed

lemma reachable_tools:
  "reachable n \<Longrightarrow> reachable (fold (\<lambda>(sb, c) m. snd (run_tool step sb c m)) cs n)"
proof (induction cs arbitrary: n)
  case Nil
  then show ?case by simp
next
  case (Cons x cs)
  obtain sb c where x: "x = (sb, c)" by (cases x)
  have "reachable (snd (run_tool step sb c n))" using Cons.prems by (rule reach_tool)
  then show ?case using Cons.IH x by simp
qed

lemma onResponse_Some: "\<exists>n'. onResponse result (Some n) = (result, Some n')"
  by (simp add: onResponse_def Let_def)

lemma reachable_run_agent: "reachable n \<Longrightarrow> reachable (run_agent step t n)"
proof -
  assume r: "reachable n"
  let ?n1 = "fold (\<lambda>(sb, c) m. snd (run_tool step sb c m)) (tool_calls t) n"
  have r1: "reachable ?n1" using r by (rule reachable_tools)
  obtain n2 where h: "onResponse (turn_result t) (Some ?n1) = (turn_result t, Some n2)"
    using onResponse_Some by blast
  have "reachable n2" using r1 h by (rule reach_hook)
  then show ?thesis using h by (simp add: run_agent_def Let_def)
qed

lemma reachable_network0: "reachable network0"
  by (rule reach_initial) (simp add: initial_def network0_def files_or_empty_def)

lemma reachable_network_hello: "reachable network_hello"
  unfolding network_hello_def using reachable_network0 by (rule reachable_run_agent)

lemma hello_summary:
  "summary (data network_hello) = Some ''<task_summary>Created hello-world page</task_summary>''"
  by code_simp

lemma hello_files: "files_or_empty network_hello = [(''index.html'', ''<h1>Hello</h1>'')]"
  by code_simp

lemma network0_summary: "summary (data network0) = None"
  by (simp add: network0_def)

text \<open>C10. In every state a run can reach, a summary that is set contains the sentinel
  and so is not empty; hence the router's test of the summary and the caller's
  \<^verbatim>\<open>!summary\<close> both agree with the summary being present.\<close>

theorem summary_present_contains_sentinel:
  assumes "reachable n"
  shows "(\<forall>t. summary (data n) = Some t \<longrightarrow> (\<exists>u v. t = u @ sentinel @ v) \<and> t \<noteq> []) \<and>
         (router n = None) = (summary (data n) \<noteq> None) \<and>
         (\<not> truthy (summary (data n))) = (summary (data n) = None)"
proof -
  have ok: "summary_ok n" using assms by (rule reachable_summary_ok)
  show ?thesis
  proof (cases "summary (data n)")
    case None
    then show ?thesis by (simp add: router_def)
  next
    case (Some t)
    with ok have inc: "str_includes t sentinel" by (simp add: summary_ok_def)
    then have "t \<noteq> []" by (rule includes_sentinel_not_empty)
    with inc Some show ?thesis by (simp add: router_def str_includes_iff)
  qed
qed

theorem summary_present_contains_sentinel_witness:
  "reachable network_hello \<and>
   summary (data network_hello) = Some ''<task_summary>Created hello-world page</task_summary>'' \<and>
   router network_hello = None \<and>
   truthy (summary (data network_hello))"
  using summary_present_contains_sentinel [OF reachable_network_hello]
    reachable_network_hello hello_summary
  by simp

text \<open>C5. For every state a run can end in, the caller classifies the run as an error
  if and only if the summary is absent or the files map is empty (absent or without
  keys). The classification reads Shared State only, not the way the loop ended.\<close>

theorem isError_iff_summary_absent_or_no_files:
  assumes "reachable n"
  shows "isError n = (summary (data n) = None \<or> files_or_empty n = [])"
proof -
  have "summary_ok n" using assms by (rule reachable_summary_ok)
  then have "truthy (summary (data n)) = (summary (data n) \<noteq> None)"
    by (cases "summary (data n)") (auto simp: summary_ok_def dest: includes_sentinel_not_empty)
  then show ?thesis by (simp add: isError_def Object_keys_def)
qed

theorem isError_iff_summary_absent_or_no_files_witness:
  "reachable network_hello \<and> \<not> isError network_hello \<and>
   reachable network0 \<and> isError network0"
  using isError_iff_summary_absent_or_no_files [OF reachable_network_hello]
    isError_iff_summary_absent_or_no_files [OF reachable_network0]
    reachable_network_hello reachable_network0 hello_summary hello_files network0_summary
  by simp

subsection \<open>The terminal and readFiles tools\<close>

lemma fold_deliver:
  "fold deliver cs b = \<lparr>stdout = stdout b @ stdout_text cs, stderr = stderr b @ stderr_text cs\<rparr>"
proof (induction cs arbitrary: b)
  case Nil
  show ?case by simp
next
  case (Cons c cs)
  show ?case by (cases c) (simp_all add: Cons.IH)
qed

text \<open>C9. The terminal tool and the readFiles tool return the network as they got it:
  summary, files reference and every stored object. The lifecycle hook keeps the files
  reference and the store. So the files map changes in createOrUpdateFiles only.\<close>

theorem tools_leave_shared_state:
  "snd (terminal step sb command n) = n \<and>
   snd (readFiles step sb paths n) = n \<and>
   snd (run_tool step sb (Terminal command) n) = n \<and>
   snd (run_tool step sb (ReadFiles paths) n) = n \<and>
   (\<exists>n'. snd (onResponse result (Some n)) = Some n' \<and>
         files (data n') = files (data n) \<and> heap n' = heap n \<and> fresh n' = fresh n)"
  by (simp add: snd_terminal snd_readFiles onResponse_def Let_def split: option.splits)

text \<open>C7. For every command the terminal handler returns a value and never throws. With
  the step tools: when the command returns, the value is the \<^verbatim>\<open>stdout\<close> of its result;
  when the command throws, the value is the string made of the error and of the stdout
  and stderr text delivered before the throw; when the sandbox cannot be reached, the
  same string with both texts empty.\<close>

theorem terminal_never_throws:
  "(\<exists>v. fst (terminal step sb command n) = Inr v) \<and>
   (step \<longrightarrow> (\<exists>s. fst (terminal step sb command n) = Inr (Str s))) \<and>
   (step \<and> getSandbox sb = None \<and> snd (commands_run sb command) = Inr out \<longrightarrow>
      fst (terminal step sb command n) = Inr (Str out)) \<and>
   (step \<and> getSandbox sb = None \<and> commands_run sb command = (chunks, Inl e) \<longrightarrow>
      fst (terminal step sb command n) =
        Inr (Str (''Command failed: '' @ e @ '' '' @ [CHR 0x0A] @ ''stdout: '' @ stdout_text chunks
                  @ [CHR 0x0A] @ ''stderror: '' @ stderr_text chunks))) \<and>
   (step \<and> getSandbox sb = Some e \<longrightarrow>
      fst (terminal step sb command n) =
        Inr (Str (''Command failed: '' @ e @ '' '' @ [CHR 0x0A] @ ''stdout: ''
                  @ [CHR 0x0A] @ ''stderror: '')))"
  by (auto simp: terminal_def step_run_def terminal_fn_def try_catch_def terminal_try_def
      terminal_catch_def fold_deliver Let_def split: option.splits sum.splits prod.splits)

theorem terminal_never_throws_witness:
  "getSandbox sandbox_ok = None \<and> snd (commands_run sandbox_ok ''ls'') = Inr ''ok'' \<and>
   fst (terminal True sandbox_ok ''ls'' network0) = Inr (Str ''ok'') \<and>
   getSandbox sandbox_exit = None \<and>
   commands_run sandbox_exit ''npm test'' =
     ([OnStdout ''a'', OnStderr ''b'', OnStdout ''c''], Inl ''CommandExitError: exit status 1'') \<and>
   fst (terminal True sandbox_exit ''npm test'' network0) =
     Inr (Str (''Command failed: CommandExitError: exit status 1 '' @ [CHR 0x0A] @ ''stdout: ac''
               @ [CHR 0x0A] @ ''stderror: b'')) \<and>
   getSandbox sandbox_down = Some ''Error: sandbox not found'' \<and>
   fst (terminal True sandbox_down ''npm test'' network0) =
     Inr (Str (''Command failed: Error: sandbox not found '' @ [CHR 0x0A] @ ''stdout: ''
               @ [CHR 0x0A] @ ''stderror: ''))"
  using terminal_never_throws [where step = True and sb = sandbox_ok and command = "''ls''"
      and n = network0 and out = "''ok''"]
    terminal_never_throws [where step = True and sb = sandbox_exit and command = "''npm test''"
      and n = network0 and chunks = "[OnStdout ''a'', OnStderr ''b'', OnStdout ''c'']"
      and e = "''CommandExitError: exit status 1''"]
    terminal_never_throws [where step = True and sb = sandbox_down and command = "''npm test''"
      and n = network0 and e = "''Error: sandbox not found''"]
  by (simp add: sandbox_ok_def sandbox_exit_def sandbox_down_def)

subsection \<open>The save-result step\<close>

lemma hello_not_error: "\<not> isError network_hello"
  by (simp add: isError_def hello_summary hello_files Object_keys_def)

lemma network0_error: "isError network0"
  by (simp add: isError_def network0_def)

text \<open>C6. The save-result step adds exactly one record to the messages, with role
  ASSISTANT. If the run is classified as an error, the content is the fixed string, the
  type is ERROR and there is no fragment. Otherwise the content is the summary (which is
  present), the type is RESULT and the fragment holds the sandbox URL, the title
  "Fragment" and the files map (which is not empty).\<close>

theorem save_result_one_record:
  "\<exists>m. save_result pid url n db = db @ [m] \<and> projectId m = pid \<and> role m = ''ASSISTANT'' \<and>
       (isError n \<longrightarrow>
          content m = Some ''Something went wrong. Please try again.'' \<and>
          type m = ''ERROR'' \<and> fragment m = None) \<and>
       (\<not> isError n \<longrightarrow>
          content m = summary (data n) \<and> summary (data n) \<noteq> None \<and> type m = ''RESULT'' \<and>
          fragment m = Some \<lparr>sandboxUrl = url, title = ''Fragment'',
                              fragment_files = Some (files_or_empty n)\<rparr> \<and>
          files_or_empty n \<noteq> [])"
  by (cases "files (data n)"; cases "summary (data n)")
     (auto simp: save_result_def prisma_message_create_def isError_def files_or_empty_def
        Object_keys_def)

theorem save_result_one_record_witness:
  "\<not> isError network_hello \<and>
   save_result ''project-1'' ''https://3000-sandbox.example'' network_hello [] =
     [\<lparr>projectId = ''project-1'',
       content = Some ''<task_summary>Created hello-world page</task_summary>'',
       role = ''ASSISTANT'',
       type = ''RESULT'',
       fragment = Some \<lparr>sandboxUrl = ''https://3000-sandbox.example'',
                        title = ''Fragment'',
                        fragment_files = Some [(''index.html'', ''<h1>Hello</h1>'')]\<rparr>\<rparr>] \<and>
   isError network0 \<and>
   save_result ''project-1'' ''https://3000-sandbox.example'' network0 [] =
     [\<lparr>projectId = ''project-1'',
       content = Some ''Something went wrong. Please try again.'',
       role = ''ASSISTANT'',
       type = ''ERROR'',
       fragment = None\<rparr>]"
  using save_result_one_record [of "''project-1''" "''https://3000-sandbox.example''" network_hello "[]"]
    save_result_one_record [of "''project-1''" "''https://3000-sandbox.example''" network0 "[]"]
    hello_not_error network0_error hello_summary hello_files
  by auto

subsection \<open>The orchestration loop\<close>

lemma network_loop_bound:
  "i \<le> maxIter \<Longrightarrow> network_loop step script i n = (st, k, n') \<Longrightarrow>
   i \<le> k \<and> k \<le> maxIter \<and>
   (st = HALTED_BY_ROUTER \<and> k < maxIter \<and> router n' = None \<or> st = HALTED_BY_LIMIT \<and> k = maxIter)"
proof (induction step script i n rule: network_loop.induct)
  case (1 step script i n)
  show ?case
  proof (cases "i < maxIter")
    case False
    with "1.prems" show ?thesis by simp
  next
    case True
    show ?thesis
    proof (cases "router n")
      case None
      with True "1.prems" show ?thesis by simp
    next
      case (Some a)
      with True "1.prems"
      have "network_loop step script (Suc i) (run_agent step (script i) n) = (st, k, n')"
        by simp
      moreover have "Suc i \<le> maxIter" using True by simp
      ultimately have "Suc i \<le> k \<and> k \<le> maxIter \<and>
        (st = HALTED_BY_ROUTER \<and> k < maxIter \<and> router n' = None \<or>
         st = HALTED_BY_LIMIT \<and> k = maxIter)"
        using "1.IH" [OF True Some] by blast
      then show ?thesis by auto
    qed
  qed
qed

text \<open>The state a run of the loop ends in, whichever way it ends, is a reachable one.\<close>

lemma network_loop_reachable:
  "reachable n \<Longrightarrow> network_loop step script i n = (st, k, n') \<Longrightarrow> reachable n'"
proof (induction step script i n rule: network_loop.induct)
  case (1 step script i n)
  show ?case
  proof (cases "i < maxIter")
    case False
    with "1.prems" show ?thesis by simp
  next
    case True
    show ?thesis
    proof (cases "router n")
      case None
      with True "1.prems" show ?thesis by simp
    next
      case (Some a)
      have r: "reachable (run_agent step (script i) n)"
        using "1.prems"(1) by (rule reachable_run_agent)
      from True Some "1.prems"(2)
      have "network_loop step script (Suc i) (run_agent step (script i) n) = (st, k, n')"
        by simp
      with r show ?thesis using "1.IH" [OF True Some] by blast
    qed
  qed
qed

lemma network_run_reachable:
  "reachable n \<Longrightarrow> network_run step script n = (st, k, n') \<Longrightarrow> reachable n'"
  unfolding network_run_def by (rule network_loop_reachable)

lemma idle_run:
  "fst (network_run True (\<lambda>i. idle_turn) network0) = HALTED_BY_LIMIT \<and>
   fst (snd (network_run True (\<lambda>i. idle_turn) network0)) = 15"
  by code_simp

lemma hello_run:
  "fst (network_run True (\<lambda>i. hello_turn) network0) = HALTED_BY_ROUTER \<and>
   fst (snd (network_run True (\<lambda>i. hello_turn) network0)) = 1"
  by code_simp

text \<open>C8. Every run of the loop ends, after at most 15 agent invocations, in one of two
  terminal states. It ends in \<open>HALTED_BY_LIMIT\<close> exactly when it has made all 15
  invocations with no halt by the router, and in \<open>HALTED_BY_ROUTER\<close>, a different state,
  when the router halted it.\<close>

theorem network_run_within_cap:
  assumes "network_run step script n = (st, k, n')"
  shows "maxIter = 15 \<and> k \<le> maxIter \<and>
         (st = HALTED_BY_ROUTER \<or> st = HALTED_BY_LIMIT) \<and>
         (st = HALTED_BY_LIMIT) = (k = maxIter) \<and>
         (st = HALTED_BY_ROUTER \<longrightarrow> router n' = None) \<and>
         HALTED_BY_LIMIT \<noteq> HALTED_BY_ROUTER"
proof -
  have "0 \<le> maxIter" by simp
  then have "0 \<le> k \<and> k \<le> maxIter \<and>
    (st = HALTED_BY_ROUTER \<and> k < maxIter \<and> router n' = None \<or>
     st = HALTED_BY_LIMIT \<and> k = maxIter)"
    using assms unfolding network_run_def by (rule network_loop_bound)
  then show ?thesis by (auto simp: maxIter_def)
qed

theorem network_run_within_cap_witness:
  "fst (network_run True (\<lambda>i. idle_turn) network0) = HALTED_BY_LIMIT \<and>
   fst (snd (network_run True (\<lambda>i. idle_turn) network0)) = 15 \<and>
   fst (network_run True (\<lambda>i. hello_turn) network0) = HALTED_BY_ROUTER \<and>
   fst (snd (network_run True (\<lambda>i. hello_turn) network0)) = 1 \<and>
   router (snd (snd (network_run True (\<lambda>i. hello_turn) network0))) = None"
proof -
  let ?idle = "network_run True (\<lambda>i. idle_turn) network0"
  let ?hello = "network_run True (\<lambda>i. hello_turn) network0"
  have i: "?idle = (fst ?idle, fst (snd ?idle), snd (snd ?idle))" by simp
  have h: "?hello = (fst ?hello, fst (snd ?hello), snd (snd ?hello))" by simp
  show ?thesis
    using network_run_within_cap [OF i] network_run_within_cap [OF h] idle_run hello_run
    by simp
qed

subsection \<open>The createOrUpdateFiles tool\<close>

lemma write_files_ok:
  "writes_ok sb k fs \<Longrightarrow>
   write_files sb k fs r n = (Inr (), n\<lparr>heap := (heap n)(r := assign_all fs (heap n r))\<rparr>)"
proof (induction fs arbitrary: k n)
  case Nil
  show ?case by (simp add: assign_all_def)
next
  case (Cons f fs)
  obtain p c where f: "f = (p, c)" by (cases f)
  from Cons.prems f have w: "files_write sb k p c = None" and rest: "writes_ok sb (Suc k) fs"
    by simp_all
  let ?n1 = "n\<lparr>heap := (heap n)(r := js_assign p c (heap n r))\<rparr>"
  have "write_files sb k (f # fs) r n = write_files sb (Suc k) fs r ?n1"
    using w f by simp
  also have "\<dots> = (Inr (), ?n1\<lparr>heap := (heap ?n1)(r := assign_all fs (heap ?n1 r))\<rparr>)"
    using rest by (rule Cons.IH)
  also have "?n1\<lparr>heap := (heap ?n1)(r := assign_all fs (heap ?n1 r))\<rparr> =
             n\<lparr>heap := (heap n)(r := assign_all (f # fs) (heap n r))\<rparr>"
    by (simp add: assign_all_def f)
  finally show ?case .
qed

lemma map_of_js_assign: "k \<noteq> ''__proto__'' \<Longrightarrow> map_of (js_assign k v ob) = (map_of ob)(k \<mapsto> v)"
  by (simp add: js_assign_def update_conv')

lemma map_of_assign_all:
  "proto_free fs \<Longrightarrow> map_of (assign_all fs ob) = apply_batch fs (map_of ob)"
  unfolding assign_all_def apply_batch_def
proof (induction fs arbitrary: ob)
  case Nil
  show ?case by simp
next
  case (Cons f fs)
  obtain p c where f: "f = (p, c)" by (cases f)
  from Cons.prems f have p: "p \<noteq> ''__proto__''" and rest: "proto_free fs"
    by (auto simp: proto_free_def)
  show ?case using Cons.IH [OF rest, of "js_assign p c ob"] f p by (simp add: map_of_js_assign)
qed

lemma createOrUpdateFiles_fn_ok:
  assumes "batch_ok (sb, fs)"
  shows "\<exists>r m. createOrUpdateFiles_fn sb fs n = (Inr (Obj r), m) \<and>
           heap m r = assign_all fs (files_or_empty n) \<and>
           snd (createOrUpdateFiles True sb fs n) = m\<lparr>data := (data m)\<lparr>files := Some r\<rparr>\<rparr>"
proof -
  from assms have g: "getSandbox sb = None" and w: "writes_ok sb 0 fs"
    by (simp_all add: batch_ok_def)
  show ?thesis
  proof (cases "files (data n)")
    case None
    then show ?thesis
      using g write_files_ok [OF w, of "fresh n" "snd (new_object n)"]
      by (simp add: createOrUpdateFiles_def step_run_def createOrUpdateFiles_fn_def try_catch_def
          createOrUpdateFiles_try_def new_object_def files_or_empty_def)
  next
    case (Some r)
    then show ?thesis
      using g write_files_ok [OF w, of r n]
      by (simp add: createOrUpdateFiles_def step_run_def createOrUpdateFiles_fn_def try_catch_def
          createOrUpdateFiles_try_def files_or_empty_def)
  qed
qed

lemma createOrUpdateFiles_ok:
  assumes "batch_ok (sb, fs)"
  shows "files_or_empty (snd (createOrUpdateFiles True sb fs n)) = assign_all fs (files_or_empty n)"
proof -
  obtain r m where "heap m r = assign_all fs (files_or_empty n)"
    and "snd (createOrUpdateFiles True sb fs n) = m\<lparr>data := (data m)\<lparr>files := Some r\<rparr>\<rparr>"
    using createOrUpdateFiles_fn_ok [OF assms] by blast
  then show ?thesis by (simp add: files_or_empty_def)
qed

lemma run_batches_ok:
  "list_all batch_ok calls \<Longrightarrow> list_all proto_free (map snd calls) \<Longrightarrow>
   map_of (files_or_empty (run_batches calls n)) =
     fold apply_batch (map snd calls) (map_of (files_or_empty n))"
  unfolding run_batches_def
proof (induction calls arbitrary: n)
  case Nil
  show ?case by simp
next
  case (Cons call calls)
  obtain sb fs where c: "call = (sb, fs)" by (cases call)
  from Cons.prems c have ok: "batch_ok (sb, fs)" and rest: "list_all batch_ok calls"
    and pf: "proto_free fs" and prest: "list_all proto_free (map snd calls)"
    by simp_all
  show ?case
    using Cons.IH [OF rest prest, of "snd (createOrUpdateFiles True sb fs n)"] c
    by (simp add: createOrUpdateFiles_ok [OF ok] map_of_assign_all [OF pf])
qed

lemma two_batches_proto_free: "list_all proto_free (map snd two_batches)"
  by code_simp

lemma two_batches_ok: "list_all batch_ok two_batches"
  by code_simp

lemma two_batches_files:
  "files_or_empty (run_batches two_batches network0) = [(''a.txt'', ''3''), (''b.txt'', ''2'')]"
  by code_simp

lemma initial_network0: "initial network0"
  by (simp add: initial_def network0_def files_or_empty_def)

text \<open>What holds of successful batches. From an empty files map, and with no path
  \<^verbatim>\<open>__proto__\<close>, the files map after a sequence of successful batches is the left
  fold of the batches in call order, each batch applied entry by entry with a later
  write to a path replacing the earlier one. On success the step returns the object it
  wrote to, and the handler stores it as the files map of Shared State.\<close>

lemma files_is_fold_of_batches:
  assumes "initial n" and "list_all batch_ok calls" and "list_all proto_free (map snd calls)"
  shows "map_of (files_or_empty (run_batches calls n)) = spec_files (map snd calls)"
proof -
  from assms(1) have "map_of (files_or_empty n) = Map.empty" by (simp add: initial_def)
  then show ?thesis
    using run_batches_ok [OF assms(2) assms(3), of n] by (simp add: spec_files_def)
qed

lemma step_returns_files_object:
  assumes "batch_ok (sb, fs)"
  shows "\<exists>r m'. createOrUpdateFiles_fn sb fs m = (Inr (Obj r), m') \<and>
                 heap m' r = assign_all fs (files_or_empty m) \<and>
                 files (data (snd (createOrUpdateFiles True sb fs m))) = Some r \<and>
                 heap (snd (createOrUpdateFiles True sb fs m)) = heap m'"
proof -
  obtain r m' where a: "createOrUpdateFiles_fn sb fs m = (Inr (Obj r), m')"
    and b: "heap m' r = assign_all fs (files_or_empty m)"
    and c: "snd (createOrUpdateFiles True sb fs m) = m'\<lparr>data := (data m')\<lparr>files := Some r\<rparr>\<rparr>"
    using createOrUpdateFiles_fn_ok [OF assms] by blast
  show ?thesis using a b c by simp
qed

lemma two_batches_fold:
  "spec_files (map snd two_batches) = map_of [(''a.txt'', ''3''), (''b.txt'', ''2'')]"
  using files_is_fold_of_batches [OF initial_network0 two_batches_ok two_batches_proto_free]
    two_batches_files
  by simp

text \<open>The path \<^verbatim>\<open>__proto__\<close> is not recorded: after a successful batch that writes it
  to the sandbox, the files map has no entry for it, while the left fold of the batch
  has one.\<close>

lemma createOrUpdateFiles_proto_path:
  "batch_ok (sandbox_ok, [(''__proto__'', ''x'')]) \<and>
   files_or_empty (snd (createOrUpdateFiles True sandbox_ok [(''__proto__'', ''x'')] network0)) = [] \<and>
   spec_files [[(''__proto__'', ''x'')]] ''__proto__'' = Some ''x''"
proof -
  have a: "batch_ok (sandbox_ok, [(''__proto__'', ''x'')])"
    by code_simp
  have b: "files_or_empty (snd (createOrUpdateFiles True sandbox_ok [(''__proto__'', ''x'')] network0)) = []"
    by code_simp
  have c: "spec_files [[(''__proto__'', ''x'')]] ''__proto__'' = Some ''x''"
    by (simp add: spec_files_def apply_batch_def)
  from a b c show ?thesis by simp
qed

text \<open>C3. The claim is that after successful batches the files map is the left fold of
  the batches, and that on success the handler returns the full updated map. Here the
  network is new, the batch is \<^verbatim>\<open>index.html\<close> and every sandbox call succeeds. The
  files map of Shared State is then object 0, but the handler's own value is
  \<^verbatim>\<open>undefined\<close>, not that object: the handler has no \<^verbatim>\<open>return\<close>.\<close>

theorem createOrUpdateFiles_returns_undefined:
  "batch_ok (sandbox_ok, [(''index.html'', ''<h1>Hello</h1>'')]) \<and>
   files (data (snd (createOrUpdateFiles True sandbox_ok
                       [(''index.html'', ''<h1>Hello</h1>'')] network0))) = Some 0 \<and>
   fst (createOrUpdateFiles True sandbox_ok [(''index.html'', ''<h1>Hello</h1>'')] network0)
     = Inr Undefined \<and>
   fst (createOrUpdateFiles True sandbox_ok [(''index.html'', ''<h1>Hello</h1>'')] network0)
     \<noteq> Inr (Obj 0)"
  by code_simp

text \<open>A batch that throws. The step's value is then an error string, the handler's
  value is \<^verbatim>\<open>undefined\<close>, and the summary and the files reference of Shared State
  are as before.\<close>

lemma write_files_fail:
  "\<not> writes_ok sb k fs \<Longrightarrow> \<exists>e m. write_files sb k fs r n = (Inl e, m) \<and> data m = data n"
proof (induction fs arbitrary: k n)
  case Nil
  then show ?case by simp
next
  case (Cons f fs)
  obtain p c where f: "f = (p, c)" by (cases f)
  show ?case
  proof (cases "files_write sb k p c")
    case (Some e)
    then show ?thesis using f by simp
  next
    case None
    with Cons.prems f have "\<not> writes_ok sb (Suc k) fs" by simp
    then obtain e m where
      "write_files sb (Suc k) fs r (n\<lparr>heap := (heap n)(r := js_assign p c (heap n r))\<rparr>)
         = (Inl e, m)"
      and "data m = data (n\<lparr>heap := (heap n)(r := js_assign p c (heap n r))\<rparr>)"
      using Cons.IH by blast
    then show ?thesis using None f by simp
  qed
qed

lemma createOrUpdateFiles_failed:
  assumes "\<not> batch_ok (sb, fs)"
  shows "(\<exists>e. fst (createOrUpdateFiles_fn sb fs n) = Inr (Str (''Error: '' @ e))) \<and>
         fst (createOrUpdateFiles True sb fs n) = Inr Undefined \<and>
         data (snd (createOrUpdateFiles True sb fs n)) = data n"
proof (cases "getSandbox sb")
  case (Some e)
  then show ?thesis
    by (auto simp: createOrUpdateFiles_def step_run_def createOrUpdateFiles_fn_def try_catch_def
        createOrUpdateFiles_try_def createOrUpdateFiles_catch_def new_object_def
        split: option.splits prod.splits)
next
  case None
  with assms have nw: "\<not> writes_ok sb 0 fs" by (simp add: batch_ok_def)
  show ?thesis
  proof (cases "files (data n)")
    case None': None
    obtain e m where "write_files sb 0 fs (fresh n) (snd (new_object n)) = (Inl e, m)"
      and "data m = data (snd (new_object n))"
      using write_files_fail [OF nw] by blast
    then show ?thesis using None None'
      by (simp add: createOrUpdateFiles_def step_run_def createOrUpdateFiles_fn_def try_catch_def
          createOrUpdateFiles_try_def createOrUpdateFiles_catch_def new_object_def)
  next
    case (Some r)
    obtain e m where "write_files sb 0 fs r n = (Inl e, m)" and "data m = data n"
      using write_files_fail [OF nw] by blast
    then show ?thesis using None Some
      by (simp add: createOrUpdateFiles_def step_run_def createOrUpdateFiles_fn_def try_catch_def
          createOrUpdateFiles_try_def createOrUpdateFiles_catch_def)
  qed
qed

text \<open>C2. The claim is that when a batch throws, the handler returns an error string to
  the agent and the files map holds no entry of that batch. Here Shared State holds
  \<^verbatim>\<open>a.txt\<close>, the batch is \<^verbatim>\<open>b.txt\<close>, \<^verbatim>\<open>c.txt\<close>, and the second write throws. The
  step's value is the error string, but the handler's value is \<^verbatim>\<open>undefined\<close>; and
  \<^verbatim>\<open>b.txt\<close> is in the files map afterwards, because the loop writes through the
  reference Shared State holds.\<close>

theorem createOrUpdateFiles_failing_batch:
  "files_or_empty network_a = [(''a.txt'', ''1'')] \<and>
   fst (createOrUpdateFiles_fn sandbox_full [(''b.txt'', ''2''), (''c.txt'', ''3'')] network_a)
     = Inr (Str ''Error: Error: disk full'') \<and>
   fst (createOrUpdateFiles True sandbox_full [(''b.txt'', ''2''), (''c.txt'', ''3'')] network_a)
     = Inr Undefined \<and>
   files_or_empty (snd (createOrUpdateFiles True sandbox_full
                          [(''b.txt'', ''2''), (''c.txt'', ''3'')] network_a))
     = [(''a.txt'', ''1''), (''b.txt'', ''2'')]"
  by code_simp

end
